theory Spec2Isabelle
  imports Main "HOL-Library.Sublist" "HOL-Library.AList"
begin

section \<open>WikiTree microdata views: the data\<close>

text \<open>
  The module \<^verbatim>\<open>wikitree/public.py\<close> turns the microdata of a WikiTree profile page
  into Python objects. The raw data is what \<^verbatim>\<open>json_dict()\<close> of the microdata library
  gives: strings, lists and dictionaries with string keys, nested as a tree (no object
  occurs twice in it). A Python \<^verbatim>\<open>dict\<close> is an association list in insertion order;
  a lookup takes the first entry of a key, and the dictionaries of a program have
  distinct keys. A Python character is one \<open>char\<close>.
\<close>

datatype raw = RStr string | RList "raw list" | RDict "(string \<times> raw) list"

text \<open>
  The entity kinds are the subclasses of \<^verbatim>\<open>MicrodataView\<close>; the module has one.
  \<^verbatim>\<open>MicrodataView\<close> itself cannot be instantiated (its \<^verbatim>\<open>__init__\<close> raises).
\<close>

datatype kind = Person

text \<open>
  The values a view holds after normalisation: the raw shapes, a reference to a view
  object (\<open>VObj\<close>, given with its class and its instance dictionary as it is when the
  reference is made), and what the bookkeeping attributes and the class attributes hold:
  truth values, \<^verbatim>\<open>None\<close>, the class itself (\<open>VClass\<close>), a method that the module
  defines (\<open>VMethod\<close>, by its name) and what every class has without a line of the
  module saying so (\<open>VBuiltin\<close>, by its name: the methods of \<^verbatim>\<open>object\<close> and the
  docstring).
  \<open>VDataRef\<close> stands for the reference that line 43 of the module stores under
  \<^verbatim>\<open>__data__\<close>: the dictionary \<^verbatim>\<open>data\<close> of \<^verbatim>\<open>load\<close>, after the in-place
  updates of the normalisation (when the document has no property called type it is the
  instance dictionary itself). No code of the module reads it back.
\<close>

datatype pyval =
    VStr string
  | VList "pyval list"
  | VDict "(string \<times> pyval) list"
  | VObj kind "(string \<times> pyval) list"
  | VBool bool
  | VNone
  | VDataRef
  | VClass kind
  | VMethod string
  | VBuiltin string

datatype error =
    IndexError | KeyError | TypeError | AttributeError | ValueError
  | RecursionError | TransportError

text \<open>A view object: its class and its instance dictionary \<^verbatim>\<open>__dict__\<close>.\<close>

record node =
  cls :: kind
  dict :: "(string \<times> pyval) list"

fun embed :: "raw \<Rightarrow> pyval" where
  "embed (RStr s) = VStr s"
| "embed (RList xs) = VList (map embed xs)"
| "embed (RDict d) = VDict (map (\<lambda>(k, v). (k, embed v)) d)"

section \<open>The Python operations the module uses\<close>

text \<open>\<^verbatim>\<open>s in t\<close> on two strings: \<open>s\<close> occurs in \<open>t\<close>.\<close>

fun str_contains :: "string \<Rightarrow> string \<Rightarrow> bool" where
  "str_contains s [] = (s = [])"
| "str_contains s (c # cs) = (prefix s (c # cs) \<or> str_contains s cs)"

text \<open>
  \<^verbatim>\<open>s in x\<close> for a string \<open>s\<close>: a substring test on a string, membership of an
  equal element in a list, membership among the keys of a dictionary.
\<close>

fun py_in :: "string \<Rightarrow> raw \<Rightarrow> bool" where
  "py_in s (RStr t) = str_contains s t"
| "py_in s (RList xs) = (RStr s \<in> set xs)"
| "py_in s (RDict d) = (s \<in> fst ` set d)"

text \<open>\<^verbatim>\<open>x[k]\<close> with a string \<open>k\<close>: only a dictionary can be indexed by a string.\<close>

fun getitem :: "raw \<Rightarrow> string \<Rightarrow> error + raw" where
  "getitem (RDict d) k = (case map_of d k of None \<Rightarrow> Inl KeyError | Some v \<Rightarrow> Inr v)"
| "getitem (RList xs) k = Inl TypeError"
| "getitem (RStr s) k = Inl TypeError"

text \<open>
  \<^verbatim>\<open>x[0]\<close>: the first element of a list, the first character of a string (as a
  string), and a \<^verbatim>\<open>KeyError\<close> on a dictionary, whose keys are strings.
\<close>

fun getitem0 :: "raw \<Rightarrow> error + raw" where
  "getitem0 (RList []) = Inl IndexError"
| "getitem0 (RList (x # xs)) = Inr x"
| "getitem0 (RStr []) = Inl IndexError"
| "getitem0 (RStr (c # cs)) = Inr (RStr [c])"
| "getitem0 (RDict d) = Inl KeyError"

text \<open>\<^verbatim>\<open>s + x\<close> for a string \<open>s\<close>: concatenation, defined on strings only.\<close>

fun str_add :: "string \<Rightarrow> raw \<Rightarrow> error + raw" where
  "str_add s (RStr t) = Inr (RStr (s @ t))"
| "str_add s (RList xs) = Inl TypeError"
| "str_add s (RDict d) = Inl TypeError"

text \<open>
  \<^verbatim>\<open>s.replace(old, new)\<close>: every occurrence of \<open>old\<close>, found from left to right
  without overlap, becomes \<open>new\<close>; an empty \<open>old\<close> matches before every character
  and at the end.
\<close>

function str_replace :: "string \<Rightarrow> string \<Rightarrow> string \<Rightarrow> string" where
  "str_replace old new [] = (if old = [] then new else [])"
| "str_replace old new (c # cs) =
     (if old = [] then new @ c # str_replace old new cs
      else if prefix old (c # cs)
        then new @ str_replace old new (drop (length old) (c # cs))
      else c # str_replace old new cs)"
  by pat_completeness auto
termination
  by (relation "measure (\<lambda>(old, new, s). length s)") auto

text \<open>
  \<^verbatim>\<open>dict(x)\<close>: a copy of a dictionary; from any other iterable, one entry for each
  element, which must itself have exactly two elements (otherwise \<^verbatim>\<open>ValueError\<close>),
  the first of them hashable (a list or a dictionary is not: \<^verbatim>\<open>TypeError\<close>). Iterating
  a string gives its characters and iterating a dictionary gives its keys. A later entry
  of a key replaces the value of an earlier one.
\<close>

fun pair_of :: "raw \<Rightarrow> error + (string \<times> raw)" where
  "pair_of (RList [k, v]) = (case k of RStr s \<Rightarrow> Inr (s, v) | _ \<Rightarrow> Inl TypeError)"
| "pair_of (RList xs) = Inl ValueError"
| "pair_of (RStr [a, b]) = Inr ([a], RStr [b])"
| "pair_of (RStr s) = Inl ValueError"
| "pair_of (RDict [(k1, v1), (k2, v2)]) = Inr (k1, RStr k2)"
| "pair_of (RDict d) = Inl ValueError"

fun dict_of_pairs :: "raw list \<Rightarrow> (string \<times> raw) list \<Rightarrow> error + (string \<times> raw) list" where
  "dict_of_pairs [] acc = Inr acc"
| "dict_of_pairs (x # xs) acc =
     (case pair_of x of
        Inl e \<Rightarrow> Inl e
      | Inr (k, v) \<Rightarrow> dict_of_pairs xs (AList.update k v acc))"

fun py_dict :: "raw \<Rightarrow> error + (string \<times> raw) list" where
  "py_dict (RDict d) = Inr d"
| "py_dict (RList xs) = dict_of_pairs xs []"
| "py_dict (RStr s) = (if s = [] then Inr [] else Inl ValueError)"

text \<open>Truth value of an object, as \<^verbatim>\<open>if x\<close> and \<^verbatim>\<open>not x\<close> take it.\<close>

fun truthy :: "pyval \<Rightarrow> bool" where
  "truthy (VStr s) = (s \<noteq> [])"
| "truthy (VList xs) = (xs \<noteq> [])"
| "truthy (VDict d) = (d \<noteq> [])"
| "truthy (VObj c d) = True"
| "truthy (VBool b) = b"
| "truthy VNone = False"
| "truthy VDataRef = True"
| "truthy (VClass c) = True"
| "truthy (VMethod m) = True"
| "truthy (VBuiltin m) = True"

section \<open>The module's tables\<close>

text \<open>Lines 113 and 114, and \<^verbatim>\<open>Person.__keys__\<close> (lines 101 to 103).\<close>

definition always_lists :: "string list" where
  "always_lists = [''spouse'', ''parent'', ''marriage'', ''children'']"

definition type_mapping :: "(string \<times> kind) list" where
  "type_mapping = [(''http://schema.org/Person'', Person)]"

definition Person_keys :: "string list" where
  "Person_keys =
     [''additionalName'', ''birth'', ''birthDate'', ''children'', ''death'', ''deathDate'',
      ''familyName'', ''gender'', ''givenName'', ''image'', ''marriage'', ''name'', ''parent'',
      ''sibling'', ''spouse'', ''startDate'', ''url'']"

text \<open>
  The always-multivalued set as the specification lists it (its section 3), to be
  compared with \<open>always_lists\<close>.
\<close>

definition spec_always_multivalued :: "string list" where
  "spec_always_multivalued = [''parent'', ''spouse'', ''sibling'', ''children'', ''marriage'']"

section \<open>Construction\<close>

text \<open>
  \<^verbatim>\<open>Person.__init__\<close> (lines 105 to 111). The argument is whatever the caller
  passes; the normaliser passes an element of the raw data.
\<close>

definition Person_init :: "raw \<Rightarrow> error + node" where
  "Person_init url =
     (if py_in ''http://'' url then
        Inr \<lparr>cls = Person, dict = [(''url'', embed url)]\<rparr>
      else if py_in ''/wiki'' url then
        (case str_add ''http://www.wikitree.com'' url of
           Inl e \<Rightarrow> Inl e
         | Inr u \<Rightarrow> Inr \<lparr>cls = Person, dict = [(''url'', embed u)]\<rparr>)
      else
        (case str_add ''http://www.wikitree.com/wiki/'' url of
           Inl e \<Rightarrow> Inl e
         | Inr u \<Rightarrow> Inr \<lparr>cls = Person, dict = [(''url'', embed u)]\<rparr>))"

text \<open>Calling the class that the type mapping gives.\<close>

fun construct :: "kind \<Rightarrow> raw \<Rightarrow> error + node" where
  "construct Person url = Person_init url"

section \<open>Normalisation\<close>

text \<open>
  The three subscript chains of \<^verbatim>\<open>__process_microdata__\<close> (lines 54, 55 and 57):
  \<^verbatim>\<open>data['type'][0]\<close>, its lookup in the type mapping, which hashes the key,
  \<^verbatim>\<open>data['properties']['url'][0]\<close> and \<^verbatim>\<open>dict(data['properties'])\<close>.
\<close>

definition first_type :: "(string \<times> raw) list \<Rightarrow> error + raw" where
  "first_type d =
     (case getitem (RDict d) ''type'' of
        Inl e \<Rightarrow> Inl e
      | Inr ts \<Rightarrow> getitem0 ts)"

fun lookup_type :: "raw \<Rightarrow> error + kind option" where
  "lookup_type (RStr t) = Inr (map_of type_mapping t)"
| "lookup_type (RList xs) = Inl TypeError"
| "lookup_type (RDict d) = Inl TypeError"

definition reference_url :: "(string \<times> raw) list \<Rightarrow> error + raw" where
  "reference_url d =
     (case getitem (RDict d) ''properties'' of
        Inl e \<Rightarrow> Inl e
      | Inr p \<Rightarrow>
          (case getitem p ''url'' of
             Inl e \<Rightarrow> Inl e
           | Inr us \<Rightarrow> getitem0 us))"

definition properties_copy :: "(string \<times> raw) list \<Rightarrow> error + (string \<times> raw) list" where
  "properties_copy d =
     (case getitem (RDict d) ''properties'' of
        Inl e \<Rightarrow> Inl e
      | Inr p \<Rightarrow> py_dict p)"

text \<open>The measure of the recursion: every raw value counts, a string for two.\<close>

fun rsize :: "raw \<Rightarrow> nat" where
  "rsize (RStr s) = 2"
| "rsize (RList xs) = Suc (sum_list (map rsize xs))"
| "rsize (RDict d) = Suc (sum_list (map (\<lambda>(k, v). rsize v) d))"

lemma rsize_pos: "0 < rsize v"
  by (cases v) auto

lemma map_of_rsize:
  "map_of d k = Some v \<Longrightarrow> rsize v \<le> sum_list (map (\<lambda>(k, v). rsize v) d)"
  by (induction d) (auto split: if_splits)

lemma update_rsize:
  "sum_list (map (\<lambda>(k, v). rsize v) (AList.update k v acc))
     \<le> sum_list (map (\<lambda>(k, v). rsize v) acc) + rsize v"
  by (induction acc) auto

lemma pair_of_rsize: "pair_of x = Inr (k, v) \<Longrightarrow> rsize v \<le> rsize x"
  by (induction x rule: pair_of.induct)
    (auto split: raw.splits simp: Suc_le_eq rsize_pos add_pos_pos)

lemma dict_of_pairs_rsize:
  "dict_of_pairs xs acc = Inr p \<Longrightarrow>
     sum_list (map (\<lambda>(k, v). rsize v) p)
       \<le> sum_list (map (\<lambda>(k, v). rsize v) acc) + sum_list (map rsize xs)"
proof (induction xs arbitrary: acc)
  case Nil
  then show ?case by simp
next
  case (Cons x xs)
  from Cons.prems obtain k v where kv: "pair_of x = Inr (k, v)"
    and rest: "dict_of_pairs xs (AList.update k v acc) = Inr p"
    by (auto split: sum.splits)
  from Cons.IH [OF rest] update_rsize [of k v acc] pair_of_rsize [OF kv]
  show ?case by simp
qed

lemma py_dict_rsize: "py_dict v = Inr p \<Longrightarrow> rsize (RDict p) \<le> rsize v"
  using dict_of_pairs_rsize [of _ "[]" p]
  by (cases v) (auto split: if_splits)

lemma properties_copy_rsize:
  "properties_copy d = Inr p \<Longrightarrow> rsize (RDict p) < rsize (RDict d)"
proof -
  assume a: "properties_copy d = Inr p"
  then obtain v where v: "map_of d ''properties'' = Some v" and p: "py_dict v = Inr p"
    by (auto simp: properties_copy_def split: option.splits sum.splits)
  from map_of_rsize [OF v] py_dict_rsize [OF p] show ?thesis by simp
qed

text \<open>
  \<^verbatim>\<open>MicrodataView.__process_microdata__\<close> (lines 46 to 64), with the list
  comprehension of line 51 as \<open>process_microdata_each\<close> and the loop of lines 59 and
  60 as \<open>process_microdata_items\<close>. The key is \<open>None\<close> or an attribute name. The loop
  stores each result back under its key and line 62 returns the dictionary so updated;
  on a tree this is the dictionary of the results, in the same order. A string under
  the key \<open>None\<close> reaches line 53: \<^verbatim>\<open>'type' in data\<close> is then a substring test,
  after which \<^verbatim>\<open>data['type']\<close> or \<^verbatim>\<open>data.items()\<close> raises.
\<close>

function process_microdata :: "string option \<Rightarrow> raw \<Rightarrow> error + pyval"
  and process_microdata_each :: "string option \<Rightarrow> raw list \<Rightarrow> error + pyval list"
  and process_microdata_items :: "(string \<times> raw) list \<Rightarrow> error + (string \<times> pyval) list"
where
  "process_microdata key (RList xs) =
     (if length xs = 1 \<and> key \<notin> Some ` set always_lists
      then process_microdata key (hd xs)
      else (case process_microdata_each key xs of
              Inl e \<Rightarrow> Inl e
            | Inr ys \<Rightarrow> Inr (VList ys)))"
| "process_microdata key (RDict d) =
     (if ''type'' \<in> fst ` set d then
        (case first_type d of
           Inl e \<Rightarrow> Inl e
         | Inr t \<Rightarrow>
             (case lookup_type t of
                Inl e \<Rightarrow> Inl e
              | Inr (Some c) \<Rightarrow>
                  (case reference_url d of
                     Inl e \<Rightarrow> Inl e
                   | Inr u \<Rightarrow>
                       (case construct c u of
                          Inl e \<Rightarrow> Inl e
                        | Inr n \<Rightarrow> Inr (VObj (cls n) (dict n))))
              | Inr None \<Rightarrow>
                  (case properties_copy d of
                     Inl e \<Rightarrow> Inl e
                   | Inr p \<Rightarrow> process_microdata key (RDict p))))
      else
        (case process_microdata_items d of
           Inl e \<Rightarrow> Inl e
         | Inr m \<Rightarrow> Inr (VDict m)))"
| "process_microdata key (RStr s) =
     (case key of
        None \<Rightarrow> (if str_contains ''type'' s then Inl TypeError else Inl AttributeError)
      | Some k \<Rightarrow> Inr (VStr s))"
| "process_microdata_each key [] = Inr []"
| "process_microdata_each key (x # xs) =
     (case process_microdata key x of
        Inl e \<Rightarrow> Inl e
      | Inr y \<Rightarrow>
          (case process_microdata_each key xs of
             Inl e \<Rightarrow> Inl e
           | Inr ys \<Rightarrow> Inr (y # ys)))"
| "process_microdata_items [] = Inr []"
| "process_microdata_items ((k, v) # d) =
     (case process_microdata (Some k) v of
        Inl e \<Rightarrow> Inl e
      | Inr y \<Rightarrow>
          (case process_microdata_items d of
             Inl e \<Rightarrow> Inl e
           | Inr m \<Rightarrow> Inr ((k, y) # m)))"
  by pat_completeness auto
termination
proof (relation "measure (\<lambda>x. case x of
          Inl (key, v) \<Rightarrow> 2 * rsize v
        | Inr (Inl (key, xs)) \<Rightarrow> 2 * sum_list (map rsize xs) + 1
        | Inr (Inr d) \<Rightarrow> 2 * sum_list (map (\<lambda>(k, v). rsize v) d) + 1)", goal_cases)
  case 1
  show ?case by simp
next
  case (2 key xs)
  then show ?case by (cases xs) auto
next
  case (3 key xs)
  then show ?case by simp
next
  case (4 key d t b p)
  then show ?case using properties_copy_rsize [of d p] by simp
next
  case (5 key d)
  then show ?case by simp
next
  case (6 key x xs)
  then show ?case by simp
next
  case (7 key x xs y)
  then show ?case using rsize_pos [of x] by simp
next
  case (8 k v d)
  then show ?case by simp
next
  case (9 k v d y)
  then show ?case using rsize_pos [of v] by simp
qed

section \<open>Attribute lookup and the lazy load\<close>

text \<open>
  An attribute read \<^verbatim>\<open>obj.item\<close> looks first among the data descriptors of the
  class, then in the instance dictionary, then among the other attributes of the class
  and of \<^verbatim>\<open>object\<close>. The data descriptors are \<^verbatim>\<open>__class__\<close>, \<^verbatim>\<open>__dict__\<close> and
  \<^verbatim>\<open>__weakref__\<close>: an entry of the instance dictionary cannot hide them.
\<close>

definition data_descriptor :: "node \<Rightarrow> string \<Rightarrow> pyval option" where
  "data_descriptor n item =
     (if item = ''__class__'' then Some (VClass (cls n))
      else if item = ''__dict__'' then Some (VDict (dict n))
      else if item = ''__weakref__'' then Some VNone
      else None)"

text \<open>
  The other attributes of the class: what the two class statements of the module bind
  (the methods are plain functions, so an entry of the instance dictionary hides them),
  the module name and the docstring that every class statement adds, and the methods
  that \<^verbatim>\<open>object\<close> has in CPython 3.11 and that the module does not redefine.
\<close>

definition class_attrs :: "kind \<Rightarrow> (string \<times> pyval) list" where
  "class_attrs c =
     [(''__loaded__'', VBool False),
      (''__data__'', VNone),
      (''__keys__'', VList (map VStr Person_keys)),
      (''__init__'', VMethod ''__init__''),
      (''load'', VMethod ''load''),
      (''__process_microdata__'', VMethod ''__process_microdata__''),
      (''__getattr__'', VMethod ''__getattr__''),
      (''__repr__'', VMethod ''__repr__''),
      (''__dir__'', VMethod ''__dir__''),
      (''__module__'', VStr ''wikitree.public''),
      (''__doc__'', VBuiltin ''__doc__''),
      (''__delattr__'', VBuiltin ''__delattr__''),
      (''__eq__'', VBuiltin ''__eq__''),
      (''__format__'', VBuiltin ''__format__''),
      (''__ge__'', VBuiltin ''__ge__''),
      (''__getattribute__'', VBuiltin ''__getattribute__''),
      (''__getstate__'', VBuiltin ''__getstate__''),
      (''__gt__'', VBuiltin ''__gt__''),
      (''__hash__'', VBuiltin ''__hash__''),
      (''__init_subclass__'', VBuiltin ''__init_subclass__''),
      (''__le__'', VBuiltin ''__le__''),
      (''__lt__'', VBuiltin ''__lt__''),
      (''__ne__'', VBuiltin ''__ne__''),
      (''__new__'', VBuiltin ''__new__''),
      (''__reduce__'', VBuiltin ''__reduce__''),
      (''__reduce_ex__'', VBuiltin ''__reduce_ex__''),
      (''__setattr__'', VBuiltin ''__setattr__''),
      (''__sizeof__'', VBuiltin ''__sizeof__''),
      (''__str__'', VBuiltin ''__str__''),
      (''__subclasshook__'', VBuiltin ''__subclasshook__'')]"

fun class_name :: "kind \<Rightarrow> string" where
  "class_name Person = ''Person''"

text \<open>\<^verbatim>\<open>self.__getattribute__(item)\<close>: the lookup without the fallback.\<close>

definition getattribute :: "node \<Rightarrow> string \<Rightarrow> error + pyval" where
  "getattribute n item =
     (case data_descriptor n item of
        Some v \<Rightarrow> Inr v
      | None \<Rightarrow>
          (case map_of (dict n) item of
             Some v \<Rightarrow> Inr v
           | None \<Rightarrow>
               (case map_of (class_attrs (cls n)) item of
                  Some v \<Rightarrow> Inr v
                | None \<Rightarrow> Inl AttributeError)))"

text \<open>The test \<^verbatim>\<open>self.__loaded__\<close> of lines 67, 73 and 80.\<close>

definition loaded :: "node \<Rightarrow> bool" where
  "loaded n = (case getattribute n ''__loaded__'' of Inr v \<Rightarrow> truthy v | Inl e \<Rightarrow> False)"

text \<open>
  The read \<^verbatim>\<open>self.url\<close> of lines 39 and 76. When the instance dictionary has no
  \<^verbatim>\<open>url\<close> the read falls to \<^verbatim>\<open>__getattr__\<close>: a loaded object raises
  \<^verbatim>\<open>AttributeError\<close>; an unloaded one calls \<^verbatim>\<open>self.load()\<close>, which reads
  \<^verbatim>\<open>self.url\<close> again before anything else, until the interpreter's recursion limit
  stops it (or, if an entry called load hides the method, the call of that entry fails).
\<close>

definition self_url :: "node \<Rightarrow> error + pyval" where
  "self_url n =
     (case map_of (dict n) ''url'' of
        Some u \<Rightarrow> Inr u
      | None \<Rightarrow>
          (if loaded n then Inl AttributeError
           else if ''load'' \<in> fst ` set (dict n) then Inl TypeError
           else Inl RecursionError))"

text \<open>
  The two collaborators of line 39, \<^verbatim>\<open>urllib.request.urlopen\<close> and
  \<^verbatim>\<open>microdata.get_items\<close>, as one function: for the number of requests made before
  and the URL requested, a failure or the \<^verbatim>\<open>json_dict()\<close> of each item found, in
  order. The world is the log of the URLs requested so far.
\<close>

type_synonym net = "nat \<Rightarrow> pyval \<Rightarrow> error + raw list"

type_synonym world = "pyval list"

text \<open>
  \<^verbatim>\<open>MicrodataView.load\<close> (lines 32 to 44): the failure raised, if any, the world
  and the object afterwards. Line 42 raises \<^verbatim>\<open>TypeError\<close> when the value assigned
  to \<^verbatim>\<open>__dict__\<close> is not a dictionary; lines 43 and 44 then store into the new
  instance dictionary.
\<close>

definition load :: "net \<Rightarrow> world \<Rightarrow> node \<Rightarrow> error option \<times> world \<times> node" where
  "load net w n =
     (case self_url n of
        Inl e \<Rightarrow> (Some e, w, n)
      | Inr u \<Rightarrow>
          (case net (length w) u of
             Inl e \<Rightarrow> (Some e, w @ [u], n)
           | Inr items \<Rightarrow>
               (case items of
                  [] \<Rightarrow> (Some IndexError, w @ [u], n)
                | item # rest \<Rightarrow>
                    (case getitem item ''properties'' of
                       Inl e \<Rightarrow> (Some e, w @ [u], n)
                     | Inr data \<Rightarrow>
                         (if ''__process_microdata__'' \<in> fst ` set (dict n)
                          then (Some TypeError, w @ [u], n)
                          else
                            (case process_microdata None data of
                               Inl e \<Rightarrow> (Some e, w @ [u], n)
                             | Inr (VDict m) \<Rightarrow>
                                 (None, w @ [u],
                                  n\<lparr>dict :=
                                      AList.update ''__loaded__'' (VBool True)
                                        (AList.update ''__data__'' VDataRef m)\<rparr>)
                             | Inr other \<Rightarrow> (Some TypeError, w @ [u], n)))))))"

text \<open>
  \<^verbatim>\<open>MicrodataView.__getattr__\<close> (lines 66 to 70), which Python calls when the
  lookup has failed, and the attribute read \<^verbatim>\<open>obj.item\<close> as a whole.
\<close>

definition getattr :: "net \<Rightarrow> world \<Rightarrow> node \<Rightarrow> string \<Rightarrow> (error + pyval) \<times> world \<times> node" where
  "getattr net w n item =
     (if \<not> loaded n then
        (if ''load'' \<in> fst ` set (dict n) then (Inl TypeError, w, n)
         else
           (case load net w n of
              (Some e, w', n') \<Rightarrow> (Inl e, w', n')
            | (None, w', n') \<Rightarrow> (getattribute n' item, w', n')))
      else (getattribute n item, w, n))"

definition read_attr :: "net \<Rightarrow> world \<Rightarrow> node \<Rightarrow> string \<Rightarrow> (error + pyval) \<times> world \<times> node" where
  "read_attr net w n item =
     (case getattribute n item of
        Inr v \<Rightarrow> (Inr v, w, n)
      | Inl e \<Rightarrow> getattr net w n item)"


section \<open>Introspection\<close>

text \<open>
  \<^verbatim>\<open>MicrodataView.__repr__\<close> (lines 72 to 77). The text that \<^verbatim>\<open>pformat\<close> makes
  of a dictionary is not modelled: \<open>PFormat\<close> names the dictionary it is given. Line
  76 reads \<^verbatim>\<open>self.url\<close> as any attribute is read. A \<^verbatim>\<open>url\<close> that is not a
  string has no \<^verbatim>\<open>replace\<close> method (a \<^verbatim>\<open>url\<close> that is itself a view object
  is not modelled).
\<close>

datatype rendering = Tag string | PFormat "(string \<times> pyval) list"

definition repr :: "net \<Rightarrow> world \<Rightarrow> node \<Rightarrow> (error + rendering) \<times> world \<times> node" where
  "repr net w n =
     (if loaded n then (Inr (PFormat (dict n)), w, n)
      else
        (case read_attr net w n ''url'' of
           (Inl e, w', n') \<Rightarrow> (Inl e, w', n')
         | (Inr (VStr s), w', n') \<Rightarrow>
             (Inr (Tag (''<'' @ class_name (cls n') @ '' ''
                        @ str_replace ''http://www.wikitree.com/wiki/'' [] s @ ''>'')),
              w', n')
         | (Inr other, w', n') \<Rightarrow> (Inl AttributeError, w', n')))"

text \<open>
  \<^verbatim>\<open>MicrodataView.__dir__\<close> (lines 79 to 83): the keys of the instance dictionary,
  or \<^verbatim>\<open>self.__keys__\<close>, again an attribute read.
\<close>

definition dir :: "net \<Rightarrow> world \<Rightarrow> node \<Rightarrow> (error + pyval) \<times> world \<times> node" where
  "dir net w n =
     (if loaded n then (Inr (VList (map (\<lambda>(k, v). VStr k) (dict n))), w, n)
      else read_attr net w n ''__keys__'')"

section \<open>Example documents and collaborators\<close>

text \<open>A reference to a person, as \<^verbatim>\<open>json_dict()\<close> gives an item of that type.\<close>

definition person_ref :: "string \<Rightarrow> raw" where
  "person_ref u =
     RDict [(''type'', RList [RStr ''http://schema.org/Person'']),
            (''properties'', RDict [(''url'', RList [RStr u])])]"

text \<open>
  The document of the specification's end-to-end example (a name, one child, no
  parent), and the same with a \<^verbatim>\<open>url\<close> property of its own.
\<close>

definition page_jane :: raw where
  "page_jane =
     RDict [(''type'', RList [RStr ''http://schema.org/Person'']),
            (''properties'',
             RDict [(''name'', RList [RStr ''Jane Doe'']),
                    (''children'', RList [person_ref ''/wiki/X-2'']),
                    (''parent'', RList [])])]"

definition page_jane_url :: raw where
  "page_jane_url =
     RDict [(''type'', RList [RStr ''http://schema.org/Person'']),
            (''properties'',
             RDict [(''name'', RList [RStr ''Jane Doe'']),
                    (''url'', RList [RStr ''http://www.wikitree.com/wiki/Doe-7''])])]"

text \<open>
  An item of a type the module has no class for, with a property that is itself
  called type.
\<close>

definition event_item :: raw where
  "event_item =
     RDict [(''type'', RList [RStr ''http://schema.org/Event'']),
            (''properties'',
             RDict [(''type'', RList [RStr ''baptism'']),
                    (''startDate'', RList [RStr ''1900-01-01''])])]"

text \<open>The same item without that property.\<close>

definition event_plain :: raw where
  "event_plain =
     RDict [(''type'', RList [RStr ''http://schema.org/Event'']),
            (''properties'', RDict [(''startDate'', RList [RStr ''1900-01-01''])])]"

text \<open>An item without a type, as \<^verbatim>\<open>json_dict()\<close> gives it.\<close>

definition untyped_item :: raw where
  "untyped_item = RDict [(''properties'', RDict [(''startDate'', RList [RStr ''1900-01-01''])])]"

text \<open>The object \<^verbatim>\<open>Person('X-1')\<close>.\<close>

definition node_X1 :: node where
  "node_X1 = \<lparr>cls = Person, dict = [(''url'', VStr ''http://www.wikitree.com/wiki/X-1'')]\<rparr>"

text \<open>That object after it has loaded the example document.\<close>

definition jane_loaded :: node where
  "jane_loaded =
     \<lparr>cls = Person,
      dict = [(''name'', VStr ''Jane Doe''),
              (''children'', VList [VObj Person [(''url'', VStr ''http://www.wikitree.com/wiki/X-2'')]]),
              (''parent'', VList []),
              (''__data__'', VDataRef),
              (''__loaded__'', VBool True)]\<rparr>"

text \<open>
  Collaborators: one that finds the example document on every page, one that finds the
  document with a \<^verbatim>\<open>url\<close>, one that finds no item, and one whose first request fails
  in transport and whose later requests find the example document.
\<close>

definition net_jane :: net where
  "net_jane i u = Inr [page_jane]"

definition net_jane_url :: net where
  "net_jane_url i u = Inr [page_jane_url]"

definition net_empty :: net where
  "net_empty i u = Inr []"


section \<open>Facts about the string operations\<close>

lemma str_contains_sublist: "str_contains s t = sublist s t"
  by (induction t) (auto simp: sublist_Cons_right)


lemma contains_longer:
  "prefix s s' \<Longrightarrow> str_contains s' t \<Longrightarrow> str_contains s t"
proof (induction t)
  case Nil
  then show ?case by simp
next
  case (Cons c cs)
  then show ?case by (auto dest: prefix_order.trans)
qed

lemma replace_absent:
  "old \<noteq> [] \<Longrightarrow> \<not> str_contains old s \<Longrightarrow> str_replace old new s = s"
  by (induction s) auto

lemma replace_at_front:
  assumes "old \<noteq> []"
  shows "str_replace old new (old @ t) = new @ str_replace old new t"
proof -
  from assms obtain c cs where old: "old = c # cs" by (cases old) auto
  have "str_replace old new (c # (cs @ t)) =
          new @ str_replace old new (drop (length old) (c # (cs @ t)))"
    using old by (subst str_replace.simps(2)) simp
  then show ?thesis using old by simp
qed

lemma profile_prefix_removed:
  assumes "\<not> str_contains ''http://'' ident"
  shows "str_replace ''http://www.wikitree.com/wiki/'' [] (''http://www.wikitree.com/wiki/'' @ ident) = ident"
proof -
  have p: "prefix ''http://'' ''http://www.wikitree.com/wiki/''" by simp
  from assms contains_longer [OF p] have "\<not> str_contains ''http://www.wikitree.com/wiki/'' ident"
    by blast
  then have "str_replace ''http://www.wikitree.com/wiki/'' [] ident = ident"
    by (intro replace_absent) simp_all
  then show ?thesis
    using replace_at_front [of "''http://www.wikitree.com/wiki/''" "[]" ident] by simp
qed


section \<open>Facts about construction and normalisation\<close>

lemma Person_init_str:
  "Person_init (RStr s) = Inr \<lparr>cls = Person, dict = [(''url'', VStr
      (if str_contains ''http://'' s then s
       else if str_contains ''/wiki'' s then ''http://www.wikitree.com'' @ s
       else ''http://www.wikitree.com/wiki/'' @ s))]\<rparr>"
  by (simp add: Person_init_def)

lemma always_lists_set:
  "set always_lists = {''spouse'', ''parent'', ''marriage'', ''children''}"
  by (simp add: always_lists_def)

lemma singleton_collapse:
  "key \<notin> Some ` set always_lists \<Longrightarrow>
     process_microdata key (RList [x]) = process_microdata key x"
  by simp

lemma singleton_kept:
  "key \<in> Some ` set always_lists \<Longrightarrow>
     process_microdata key (RList [x]) =
       (case process_microdata key x of Inl e \<Rightarrow> Inl e | Inr y \<Rightarrow> Inr (VList [y]))"
  by (simp split: sum.splits)

lemma each_result:
  "process_microdata_each key xs = Inr ys \<Longrightarrow>
     length ys = length xs \<and> (\<forall>i<length xs. process_microdata key (xs ! i) = Inr (ys ! i))"
proof (induction xs arbitrary: ys)
  case Nil
  then show ?case by simp
next
  case (Cons x xs)
  from Cons.prems obtain y ys' where y: "process_microdata key x = Inr y"
    and ys': "process_microdata_each key xs = Inr ys'" and ys: "ys = y # ys'"
    by (auto split: sum.splits)
  from Cons.IH [OF ys'] y ys show ?case
    by (auto simp: nth_Cons split: nat.splits)
qed

lemma each_total:
  "\<forall>x\<in>set xs. \<exists>y. process_microdata key x = Inr y \<Longrightarrow>
     \<exists>ys. process_microdata_each key xs = Inr ys"
  by (induction xs) auto

lemma each_failure:
  "process_microdata_each key xs = Inl e \<Longrightarrow> \<exists>x\<in>set xs. process_microdata key x = Inl e"
  by (induction xs) (auto split: sum.splits)

lemma items_result:
  "process_microdata_items d = Inr m \<Longrightarrow>
     map fst m = map fst d \<and>
     (\<forall>i<length d. process_microdata (Some (fst (d ! i))) (snd (d ! i)) = Inr (snd (m ! i)))"
proof (induction d arbitrary: m)
  case Nil
  then show ?case by simp
next
  case (Cons kv d)
  obtain k v where kv: "kv = (k, v)" by (cases kv)
  from Cons.prems kv obtain y m' where y: "process_microdata (Some k) v = Inr y"
    and m': "process_microdata_items d = Inr m'" and m: "m = (k, y) # m'"
    by (auto split: sum.splits)
  from Cons.IH [OF m'] y m kv show ?case
    by (auto simp: nth_Cons split: nat.splits)
qed

lemma items_total:
  "\<forall>(k, v)\<in>set d. \<exists>y. process_microdata (Some k) v = Inr y \<Longrightarrow>
     \<exists>m. process_microdata_items d = Inr m"
  by (induction d) auto

lemma list_elementwise:
  assumes "length xs \<noteq> 1 \<or> key \<in> Some ` set always_lists"
  shows "process_microdata key (RList xs) =
     (case process_microdata_each key xs of Inl e \<Rightarrow> Inl e | Inr ys \<Rightarrow> Inr (VList ys))"
  using assms by auto

lemma map_of_key: "map_of d k = Some v \<Longrightarrow> k \<in> fst ` set d"
  by (metis map_of_eq_None_iff option.distinct(1))

lemma untagged_bag:
  assumes "''type'' \<notin> fst ` set d"
  shows "process_microdata key (RDict d) =
     (case process_microdata_items d of Inl e \<Rightarrow> Inl e | Inr m \<Rightarrow> Inr (VDict m))"
  using assms by simp

lemma unrecognised_bag:
  assumes "map_of d ''type'' = Some (RList (RStr t # ts))"
    and "map_of type_mapping t = None"
    and "map_of d ''properties'' = Some (RDict p)"
  shows "process_microdata key (RDict d) = process_microdata key (RDict p)"
proof -
  have ty: "''type'' \<in> fst ` set d" using assms(1) by (rule map_of_key)
  have ft: "first_type d = Inr (RStr t)" using assms(1) by (simp add: first_type_def)
  have lt: "lookup_type (RStr t) = Inr None" using assms(2) by simp
  have pc: "properties_copy d = Inr p" using assms(3) by (simp add: properties_copy_def)
  show ?thesis using ty ft lt pc by simp
qed

lemma plain_mapping:
  assumes "''type'' \<notin> fst ` set d"
    and "\<forall>(k, v)\<in>set d. \<exists>y. process_microdata (Some k) v = Inr y"
  shows "\<exists>m. process_microdata key (RDict d) = Inr (VDict m)
           \<and> map fst m = map fst d
           \<and> (\<forall>i<length d. process_microdata (Some (fst (d ! i))) (snd (d ! i)) = Inr (snd (m ! i)))"
proof -
  from items_total [OF assms(2)] obtain m where m: "process_microdata_items d = Inr m" ..
  from items_result [OF m] untagged_bag [OF assms(1), of key] m show ?thesis by simp
qed

lemma person_ref_value:
  "process_microdata key (person_ref ''/wiki/X-2'') =
     Inr (VObj Person [(''url'', VStr ''http://www.wikitree.com/wiki/X-2'')])"
  by (simp add: person_ref_def first_type_def type_mapping_def reference_url_def
      Person_init_def)

section \<open>Facts about lookup, load and introspection\<close>

lemma fresh_unloaded: "\<not> loaded \<lparr>cls = c, dict = [(''url'', u)]\<rparr>"
  by (simp add: loaded_def getattribute_def data_descriptor_def class_attrs_def)




lemma load_log:
  "load net w n = (r, w', n') \<Longrightarrow> w' = w \<or> (\<exists>u. map_of (dict n) ''url'' = Some u \<and> w' = w @ [u])"
  by (auto simp: load_def self_url_def split: sum.splits list.splits if_splits pyval.splits option.splits)

lemma load_success:
  assumes "load net w n = (None, w', n')"
  shows "\<exists>u item rest data m.
           map_of (dict n) ''url'' = Some u \<and> w' = w @ [u]
           \<and> net (length w) u = Inr (item # rest)
           \<and> getitem item ''properties'' = Inr data
           \<and> process_microdata None data = Inr (VDict m)
           \<and> n' = n\<lparr>dict := AList.update ''__loaded__'' (VBool True)
                               (AList.update ''__data__'' VDataRef m)\<rparr>"
  using assms
  by (auto simp: load_def self_url_def split: sum.splits list.splits if_splits pyval.splits option.splits)

lemma load_success_loaded:
  assumes "load net w n = (None, w', n')"
  shows "loaded n'"
proof -
  from load_success [OF assms] obtain m where
    "n' = n\<lparr>dict := AList.update ''__loaded__'' (VBool True)
                               (AList.update ''__data__'' VDataRef m)\<rparr>" by blast
  then show ?thesis
    by (simp add: loaded_def getattribute_def data_descriptor_def update_conv')
qed

lemma read_fetching:
  assumes "read_attr net w n item = (Inr v, w', n')" and "w' \<noteq> w"
  shows "loaded n' \<and> length w' = Suc (length w)"
proof -
  from assms have g: "getattr net w n item = (Inr v, w', n')"
    by (auto simp: read_attr_def split: sum.splits)
  from g assms(2) obtain w1 n1 where l: "load net w n = (None, w1, n1)" and eq: "w' = w1" "n' = n1"
    by (auto simp: getattr_def split: if_splits option.splits prod.splits)
  from load_success_loaded [OF l] load_log [OF l] assms(2) eq show ?thesis by auto
qed





lemma empty_extraction:
  "map_of (dict n) ''url'' = Some u \<Longrightarrow> net (length w) u = Inr [] \<Longrightarrow>
     load net w n = (Some IndexError, w @ [u], n)"
  by (simp add: load_def self_url_def)


lemma items_lookup:
  "process_microdata_items d = Inr m \<Longrightarrow>
     (case map_of d k of
        None \<Rightarrow> map_of m k = None
      | Some x \<Rightarrow> \<exists>y. process_microdata (Some k) x = Inr y \<and> map_of m k = Some y)"
proof (induction d arbitrary: m)
  case Nil
  then show ?case by simp
next
  case (Cons kv d)
  obtain k' v where kv: "kv = (k', v)" by (cases kv)
  from Cons.prems kv obtain y m' where y: "process_microdata (Some k') v = Inr y"
    and m': "process_microdata_items d = Inr m'" and m: "m = (k', y) # m'"
    by (auto split: sum.splits)
  from Cons.IH [OF m'] y m kv show ?case by (auto split: option.splits)
qed

lemma repr_frame: "snd (repr net w n) = (w, n)"
proof (cases "loaded n")
  case True
  then show ?thesis by (simp add: repr_def)
next
  case False
  have "snd (read_attr net w n ''url'') = (w, n)"
  proof (cases "map_of (dict n) ''url''")
    case None
    then have "load net w n = (Some (if ''load'' \<in> fst ` set (dict n) then TypeError else RecursionError), w, n)"
      using False by (simp add: load_def self_url_def)
    then show ?thesis using False None
      by (simp add: read_attr_def getattribute_def data_descriptor_def class_attrs_def getattr_def)
  next
    case (Some u)
    then show ?thesis by (simp add: read_attr_def getattribute_def data_descriptor_def)
  qed
  then show ?thesis using False
    by (auto simp: repr_def split: prod.splits sum.splits pyval.splits)
qed

lemma dir_frame: "snd (dir net w n) = (w, n)"
  by (simp add: dir_def read_attr_def getattribute_def data_descriptor_def class_attrs_def split: option.splits)

lemma repr_unloaded:
  assumes "\<not> loaded n" and "map_of (dict n) ''url'' = Some (VStr s)"
  shows "fst (repr net w n) =
           Inr (Tag (''<'' @ class_name (cls n) @ '' ''
                      @ str_replace ''http://www.wikitree.com/wiki/'' [] s @ ''>''))"
  using assms by (simp add: repr_def read_attr_def getattribute_def data_descriptor_def)

lemma dir_unloaded:
  assumes "\<not> loaded n" and "map_of (dict n) ''__keys__'' = None"
  shows "fst (dir net w n) = Inr (VList (map VStr Person_keys))"
  using assms by (simp add: dir_def read_attr_def getattribute_def data_descriptor_def class_attrs_def)

lemma load_jane:
  "load net_jane w node_X1 =
     (None, w @ [VStr ''http://www.wikitree.com/wiki/X-1''], jane_loaded)"
  by (simp add: load_def self_url_def node_X1_def net_jane_def page_jane_def person_ref_def
      jane_loaded_def always_lists_def first_type_def type_mapping_def reference_url_def
      Person_init_def)



lemma load_jane_url:
  "load net_jane_url [] node_X1 =
     (None, [VStr ''http://www.wikitree.com/wiki/X-1''],
      \<lparr>cls = Person,
       dict = [(''name'', VStr ''Jane Doe''),
               (''url'', VStr ''http://www.wikitree.com/wiki/Doe-7''),
               (''__data__'', VDataRef),
               (''__loaded__'', VBool True)]\<rparr>)"
  by (simp add: load_def self_url_def node_X1_def net_jane_url_def page_jane_url_def
      always_lists_def)

lemma jane_loaded_loaded: "loaded jane_loaded"
  by (simp add: loaded_def getattribute_def data_descriptor_def jane_loaded_def)

lemma node_X1_misses_name: "getattribute node_X1 ''name'' = Inl AttributeError"
  by (simp add: getattribute_def data_descriptor_def node_X1_def class_attrs_def)

lemma node_X1_unloaded: "\<not> loaded node_X1"
  by (simp add: node_X1_def fresh_unloaded)

lemma read_jane_name:
  "read_attr net_jane [] node_X1 ''name'' =
     (Inr (VStr ''Jane Doe''), [VStr ''http://www.wikitree.com/wiki/X-1''], jane_loaded)"
proof -
  have "getattribute jane_loaded ''name'' = Inr (VStr ''Jane Doe'')"
    by (simp add: getattribute_def data_descriptor_def jane_loaded_def)
  then show ?thesis
    using node_X1_misses_name node_X1_unloaded load_jane [of "[]"]
    by (simp add: read_attr_def getattr_def node_X1_def)
qed




section \<open>The claims\<close>

text \<open>
  C1, as amended. The list \<open>always_lists\<close> of the module holds spouse, parent, marriage
  and children. Under one of these names a one-element list stays a one-element list
  (of the normalised element, or the element's failure); under any other key, sibling
  and \<open>None\<close> included, normalising a one-element list is normalising its element.
\<close>

theorem singleton_collapse_law:
  "(k \<in> set always_lists \<longrightarrow>
      process_microdata (Some k) (RList [x]) =
        (case process_microdata (Some k) x of Inl e \<Rightarrow> Inl e | Inr y \<Rightarrow> Inr (VList [y])))
   \<and> (key \<notin> Some ` set always_lists \<longrightarrow>
        process_microdata key (RList [x]) = process_microdata key x)
   \<and> set always_lists = {''spouse'', ''parent'', ''marriage'', ''children''}"
  using singleton_kept [of "Some k" x] singleton_collapse [of key x] always_lists_set
  by blast

text \<open>
  The witness of C1: a single child stays a list of one reference, a single sibling
  collapses.
\<close>

theorem singleton_collapse_law_witness:
  "''children'' \<in> set always_lists
   \<and> process_microdata (Some ''children'') (RList [person_ref ''/wiki/X-2'']) =
       Inr (VList [VObj Person [(''url'', VStr ''http://www.wikitree.com/wiki/X-2'')]])
   \<and> Some ''sibling'' \<notin> Some ` set always_lists
   \<and> process_microdata (Some ''sibling'') (RList [RStr ''Ann'']) = Inr (VStr ''Ann'')"
proof -
  have a: "''children'' \<in> set always_lists" by (simp add: always_lists_def)
  have b: "Some ''sibling'' \<notin> Some ` set always_lists" by (simp add: always_lists_def)
  have c: "process_microdata (Some ''sibling'') (RStr ''Ann'') = Inr (VStr ''Ann'')" by simp
  from singleton_collapse_law
    [where k = "''children''" and x = "person_ref ''/wiki/X-2''" and key = "Some ''sibling''"]
  have d: "process_microdata (Some ''children'') (RList [person_ref ''/wiki/X-2'']) =
       Inr (VList [VObj Person [(''url'', VStr ''http://www.wikitree.com/wiki/X-2'')]])"
    using a person_ref_value [of "Some ''children''"] by simp
  from singleton_collapse_law
    [where k = "''children''" and x = "RStr ''Ann''" and key = "Some ''sibling''"]
  have e: "process_microdata (Some ''sibling'') (RList [RStr ''Ann'']) = Inr (VStr ''Ann'')"
    using b c by simp
  from a b d e show ?thesis by blast
qed

text \<open>
  The counterexample of C1: sibling is in the set as the specification lists it, and a
  list of one sibling normalises to the reference itself, not to a list of one.
\<close>

theorem sibling_collapses:
  "''sibling'' \<in> set spec_always_multivalued
   \<and> process_microdata (Some ''sibling'') (RList [person_ref ''/wiki/X-2'']) =
       Inr (VObj Person [(''url'', VStr ''http://www.wikitree.com/wiki/X-2'')])"
  by (simp add: spec_always_multivalued_def always_lists_def person_ref_value)

text \<open>
  C3. A dictionary whose first type is in the type mapping, and whose properties have
  a \<^verbatim>\<open>url\<close> list starting with a string, normalises under every key to a new object
  of the mapped class, made by the constructor from that string: its URL is the string
  itself when \<^verbatim>\<open>http://\<close> occurs in it, the origin and the string when \<^verbatim>\<open>/wiki\<close>
  occurs in it, the profile prefix and the string otherwise. Its instance dictionary
  holds that identity and nothing else of the dictionary, it is not loaded, and reading
  its identity makes no request. Normalisation is a function of the key and the data
  alone: it has no access to the collaborators.
\<close>

theorem typed_reference:
  assumes "map_of d ''type'' = Some (RList (RStr t # ts))"
    and "map_of type_mapping t = Some c"
    and "map_of d ''properties'' = Some (RDict p)"
    and "map_of p ''url'' = Some (RList (RStr u # us))"
    and "url = (if str_contains ''http://'' u then u
                else if str_contains ''/wiki'' u then ''http://www.wikitree.com'' @ u
                else ''http://www.wikitree.com/wiki/'' @ u)"
  shows "construct c (RStr u) = Inr \<lparr>cls = c, dict = [(''url'', VStr url)]\<rparr>
           \<and> process_microdata key (RDict d) = Inr (VObj c [(''url'', VStr url)])
           \<and> \<not> loaded \<lparr>cls = c, dict = [(''url'', VStr url)]\<rparr>
           \<and> read_attr net w \<lparr>cls = c, dict = [(''url'', VStr url)]\<rparr> ''url'' =
                (Inr (VStr url), w, \<lparr>cls = c, dict = [(''url'', VStr url)]\<rparr>)"
proof -
  have c: "c = Person" by (cases c) simp
  have ty: "''type'' \<in> fst ` set d" using assms(1) by (rule map_of_key)
  have ft: "first_type d = Inr (RStr t)" using assms(1) by (simp add: first_type_def)
  have lt: "lookup_type (RStr t) = Inr (Some c)" using assms(2) by simp
  have ru: "reference_url d = Inr (RStr u)" using assms(3,4) by (simp add: reference_url_def)
  have mk: "construct c (RStr u) = Inr \<lparr>cls = c, dict = [(''url'', VStr url)]\<rparr>"
    using Person_init_str [of u] c assms(5) by simp
  have pm: "process_microdata key (RDict d) = Inr (VObj c [(''url'', VStr url)])"
    using ty ft lt ru mk by simp
  have rd: "read_attr net w \<lparr>cls = c, dict = [(''url'', VStr url)]\<rparr> ''url'' =
                (Inr (VStr url), w, \<lparr>cls = c, dict = [(''url'', VStr url)]\<rparr>)"
    by (simp add: read_attr_def getattribute_def data_descriptor_def)
  from mk pm rd fresh_unloaded [of c "VStr url"] show ?thesis by blast
qed

text \<open>The witness of C3: the reference to the child of the example document.\<close>

theorem typed_reference_witness:
  "construct Person (RStr ''/wiki/X-2'') =
     Inr \<lparr>cls = Person, dict = [(''url'', VStr ''http://www.wikitree.com/wiki/X-2'')]\<rparr>
   \<and> process_microdata (Some ''children'') (person_ref ''/wiki/X-2'') =
       Inr (VObj Person [(''url'', VStr ''http://www.wikitree.com/wiki/X-2'')])
   \<and> \<not> loaded \<lparr>cls = Person, dict = [(''url'', VStr ''http://www.wikitree.com/wiki/X-2'')]\<rparr>
   \<and> read_attr net_empty []
        \<lparr>cls = Person, dict = [(''url'', VStr ''http://www.wikitree.com/wiki/X-2'')]\<rparr> ''url'' =
       (Inr (VStr ''http://www.wikitree.com/wiki/X-2''), [],
        \<lparr>cls = Person, dict = [(''url'', VStr ''http://www.wikitree.com/wiki/X-2'')]\<rparr>)"
proof -
  let ?d = "[(''type'', RList [RStr ''http://schema.org/Person'']),
             (''properties'', RDict [(''url'', RList [RStr ''/wiki/X-2''])])]"
  have a: "map_of ?d ''type'' = Some (RList (RStr ''http://schema.org/Person'' # []))" by simp
  have b: "map_of type_mapping ''http://schema.org/Person'' = Some Person"
    by (simp add: type_mapping_def)
  have c: "map_of ?d ''properties'' = Some (RDict [(''url'', RList [RStr ''/wiki/X-2''])])"
    by simp
  have d: "map_of [(''url'', RList [RStr ''/wiki/X-2''])] ''url''
             = Some (RList (RStr ''/wiki/X-2'' # []))" by simp
  have e: "''http://www.wikitree.com/wiki/X-2'' =
             (if str_contains ''http://'' ''/wiki/X-2'' then ''/wiki/X-2''
              else if str_contains ''/wiki'' ''/wiki/X-2''
                then ''http://www.wikitree.com'' @ ''/wiki/X-2''
              else ''http://www.wikitree.com/wiki/'' @ ''/wiki/X-2'')"
    by simp
  from typed_reference [OF a b c d e, where key = "Some ''children''" and net = net_empty
      and w = "[]"]
  show ?thesis unfolding person_ref_def .
qed

text \<open>
  C7. A list that is not of length one, or any list under a name of \<open>always_lists\<close>,
  normalises element by element under the same key: when every element normalises, the
  result is a list of the same length holding the normalised elements in order; the
  only failure is the failure of an element; and the empty list gives the empty list.
\<close>

theorem multivalue_preservation:
  assumes "length xs \<noteq> 1 \<or> key \<in> Some ` set always_lists"
  shows "((\<forall>x\<in>set xs. \<exists>y. process_microdata key x = Inr y) \<longrightarrow>
           (\<exists>ys. process_microdata key (RList xs) = Inr (VList ys)
              \<and> length ys = length xs
              \<and> (\<forall>i<length xs. process_microdata key (xs ! i) = Inr (ys ! i))))
     \<and> (\<forall>e. process_microdata key (RList xs) = Inl e \<longrightarrow>
           (\<exists>x\<in>set xs. process_microdata key x = Inl e))
     \<and> process_microdata key (RList []) = Inr (VList [])"
proof -
  note eq = list_elementwise [OF assms]
  have ok: "\<exists>ys. process_microdata key (RList xs) = Inr (VList ys)
              \<and> length ys = length xs
              \<and> (\<forall>i<length xs. process_microdata key (xs ! i) = Inr (ys ! i))"
    if "\<forall>x\<in>set xs. \<exists>y. process_microdata key x = Inr y"
  proof -
    from each_total [OF that] obtain ys where ys: "process_microdata_each key xs = Inr ys" ..
    have "process_microdata key (RList xs) = Inr (VList ys)"
      by (simp only: eq ys sum.case)
    with each_result [OF ys] show ?thesis by blast
  qed
  have bad: "\<exists>x\<in>set xs. process_microdata key x = Inl e"
    if "process_microdata key (RList xs) = Inl e" for e
  proof -
    from that have "(case process_microdata_each key xs of
                       Inl e \<Rightarrow> Inl e | Inr ys \<Rightarrow> Inr (VList ys)) = Inl e"
      by (simp only: eq)
    then have "process_microdata_each key xs = Inl e"
      by (cases "process_microdata_each key xs") simp_all
    then show ?thesis by (rule each_failure)
  qed
  have nil: "process_microdata key (RList []) = Inr (VList [])" by simp
  from ok bad nil show ?thesis by blast
qed

text \<open>
  The witness of C7: two given names, and the single child of the example document.
\<close>

theorem multivalue_preservation_witness:
  "process_microdata (Some ''givenName'') (RList [RStr ''Jane'', RStr ''Mary'']) =
     Inr (VList [VStr ''Jane'', VStr ''Mary''])
   \<and> process_microdata (Some ''children'') (RList [person_ref ''/wiki/X-2'']) =
       Inr (VList [VObj Person [(''url'', VStr ''http://www.wikitree.com/wiki/X-2'')]])"
proof -
  have a: "length [RStr ''Jane'', RStr ''Mary''] \<noteq> 1
             \<or> Some ''givenName'' \<in> Some ` set always_lists" by simp
  have b: "length [person_ref ''/wiki/X-2''] \<noteq> 1
             \<or> Some ''children'' \<in> Some ` set always_lists" by (simp add: always_lists_def)
  from multivalue_preservation [OF a]
  have 1: "process_microdata (Some ''givenName'') (RList [RStr ''Jane'', RStr ''Mary'']) =
     Inr (VList [VStr ''Jane'', VStr ''Mary''])"
    by (simp add: always_lists_def)
  from multivalue_preservation [OF b]
  have 2: "process_microdata (Some ''children'') (RList [person_ref ''/wiki/X-2'']) =
       Inr (VList [VObj Person [(''url'', VStr ''http://www.wikitree.com/wiki/X-2'')]])"
    using person_ref_value [of "Some ''children''"] by (simp add: always_lists_def)
  from 1 2 show ?thesis by blast
qed




text \<open>
  The loop of lines 59 and 60: a dictionary without a \<^verbatim>\<open>type\<close> key normalises, when
  each of its values normalises under its own key, to a dictionary of the same keys in
  the same order, each with its normalised value. Line 57 comes to the same loop for the
  properties of an item whose first type is outside the type mapping, when no property
  is called type.
\<close>

lemma bag_passthrough:
  "(''type'' \<notin> fst ` set d
      \<and> (\<forall>(k, v)\<in>set d. \<exists>y. process_microdata (Some k) v = Inr y)
    \<longrightarrow> (\<exists>m. process_microdata key (RDict d) = Inr (VDict m)
           \<and> map fst m = map fst d
           \<and> (\<forall>i<length d.
                 process_microdata (Some (fst (d ! i))) (snd (d ! i)) = Inr (snd (m ! i)))))
   \<and> (map_of d ''type'' = Some (RList (RStr t # ts)) \<and> map_of type_mapping t = None
      \<and> map_of d ''properties'' = Some (RDict p) \<and> ''type'' \<notin> fst ` set p
      \<and> (\<forall>(k, v)\<in>set p. \<exists>y. process_microdata (Some k) v = Inr y)
    \<longrightarrow> (\<exists>m. process_microdata key (RDict d) = Inr (VDict m)
           \<and> map fst m = map fst p
           \<and> (\<forall>i<length p.
                 process_microdata (Some (fst (p ! i))) (snd (p ! i)) = Inr (snd (m ! i)))))"
proof -
  have one: "\<exists>m. process_microdata key (RDict d) = Inr (VDict m)
           \<and> map fst m = map fst d
           \<and> (\<forall>i<length d.
                 process_microdata (Some (fst (d ! i))) (snd (d ! i)) = Inr (snd (m ! i)))"
    if "''type'' \<notin> fst ` set d"
      and "\<forall>(k, v)\<in>set d. \<exists>y. process_microdata (Some k) v = Inr y"
    using that by (rule plain_mapping)
  have two: "\<exists>m. process_microdata key (RDict d) = Inr (VDict m)
           \<and> map fst m = map fst p
           \<and> (\<forall>i<length p.
                 process_microdata (Some (fst (p ! i))) (snd (p ! i)) = Inr (snd (m ! i)))"
    if "map_of d ''type'' = Some (RList (RStr t # ts))" and "map_of type_mapping t = None"
      and "map_of d ''properties'' = Some (RDict p)" and "''type'' \<notin> fst ` set p"
      and "\<forall>(k, v)\<in>set p. \<exists>y. process_microdata (Some k) v = Inr y"
  proof -
    from plain_mapping [OF that(4,5), of key] obtain m where
      m: "process_microdata key (RDict p) = Inr (VDict m)" "map fst m = map fst p"
        "\<forall>i<length p. process_microdata (Some (fst (p ! i))) (snd (p ! i)) = Inr (snd (m ! i))"
      by blast
    have "process_microdata key (RDict d) = Inr (VDict m)"
      by (simp only: unrecognised_bag [OF that(1,2,3)] m(1))
    with m(2,3) show ?thesis by blast
  qed
  from one two show ?thesis by blast
qed

text \<open>
  At the property dictionary of the example document, and at an event item, whose type
  has no class.
\<close>

lemma bag_passthrough_example:
  "process_microdata None
       (RDict [(''name'', RList [RStr ''Jane Doe'']), (''parent'', RList [])]) =
     Inr (VDict [(''name'', VStr ''Jane Doe''), (''parent'', VList [])])
   \<and> process_microdata (Some ''birth'') event_plain =
       Inr (VDict [(''startDate'', VStr ''1900-01-01'')])"
proof -
  let ?d = "[(''name'', RList [RStr ''Jane Doe'']), (''parent'', RList [])]"
  let ?e = "[(''type'', RList [RStr ''http://schema.org/Event'']),
             (''properties'', RDict [(''startDate'', RList [RStr ''1900-01-01''])])]"
  let ?p = "[(''startDate'', RList [RStr ''1900-01-01''])]"
  have n: "process_microdata (Some ''name'') (RList [RStr ''Jane Doe'']) = Inr (VStr ''Jane Doe'')"
    by (simp add: always_lists_def)
  have q: "process_microdata (Some ''parent'') (RList []) = Inr (VList [])"
    by simp
  have s: "process_microdata (Some ''startDate'') (RList [RStr ''1900-01-01'']) =
             Inr (VStr ''1900-01-01'')"
    by (simp add: always_lists_def)
  have d1: "''type'' \<notin> fst ` set ?d" by simp
  have d2: "\<forall>(k, v)\<in>set ?d. \<exists>y. process_microdata (Some k) v = Inr y"
    using n q by simp
  have e1: "map_of ?e ''type'' = Some (RList (RStr ''http://schema.org/Event'' # []))" by simp
  have e2: "map_of type_mapping ''http://schema.org/Event'' = None"
    by (simp add: type_mapping_def)
  have e3: "map_of ?e ''properties'' = Some (RDict ?p)" by simp
  have e4: "''type'' \<notin> fst ` set ?p" by simp
  have e5: "\<forall>(k, v)\<in>set ?p. \<exists>y. process_microdata (Some k) v = Inr y"
    using s by simp
  from bag_passthrough [where d = ?d and key = None] d1 d2
  obtain m where m: "process_microdata None (RDict ?d) = Inr (VDict m)" by blast
  have 1: "process_microdata None (RDict ?d) =
             Inr (VDict [(''name'', VStr ''Jane Doe''), (''parent'', VList [])])"
    using m n q by simp
  from bag_passthrough [where d = ?e and key = "Some ''birth''"
      and t = "''http://schema.org/Event''" and ts = "[]" and p = ?p]
    e1 e2 e3 e4 e5
  obtain m' where m': "process_microdata (Some ''birth'') (RDict ?e) = Inr (VDict m')"
      and k: "map fst m' = map fst ?p"
      and v: "\<forall>i<length ?p. process_microdata (Some (fst (?p ! i))) (snd (?p ! i)) = Inr (snd (m' ! i))"
    by blast
  from k obtain y where y: "m' = [(''startDate'', y)]" by (cases m') auto
  from v s y have "y = VStr ''1900-01-01''" by simp
  with m' y have 2: "process_microdata (Some ''birth'') event_plain =
       Inr (VDict [(''startDate'', VStr ''1900-01-01'')])"
    by (simp only: event_plain_def)
  from 1 2 show ?thesis by blast
qed

text \<open>
  C8. For a dictionary whose type is outside the type mapping, or that has none, the
  claim expects the mapping from each attribute name to its normalised value. The code
  departs from it at an event item, whose type has no class, with a property that is
  called type: line 57 passes its properties through line 53 again, which takes them
  for a tagged item, and the lookup of \<^verbatim>\<open>properties\<close> in them raises \<^verbatim>\<open>KeyError\<close>:
  no mapping is returned.
\<close>

theorem type_property_fails:
  "map_of type_mapping ''http://schema.org/Event'' = None
   \<and> process_microdata (Some ''birth'') event_item = Inl KeyError"
  by (simp add: type_mapping_def event_item_def first_type_def properties_copy_def)

text \<open>
  An item without a type, as \<^verbatim>\<open>json_dict()\<close> gives it, keeps its wrapper: the only
  key of the result is \<^verbatim>\<open>properties\<close>, where line 57 unwraps the properties of an
  item with a type.
\<close>

lemma untyped_item_wrapped:
  "process_microdata (Some ''birth'') untyped_item =
     Inr (VDict [(''properties'', VDict [(''startDate'', VStr ''1900-01-01'')])])"
  by (simp add: untyped_item_def always_lists_def)



text \<open>
  C4, as amended. When the collaborators find no item on the page, \<^verbatim>\<open>load\<close> fails at
  line 40 with the \<^verbatim>\<open>IndexError\<close> of \<^verbatim>\<open>items[0]\<close>, after the one request, and the
  object is as before.
\<close>

theorem empty_page_index_error:
  "map_of (dict n) ''url'' = Some u \<Longrightarrow> net (length w) u = Inr [] \<Longrightarrow>
     load net w n = (Some IndexError, w @ [u], n)"
  by (rule empty_extraction)

text \<open>The witness of C4: a page without items, requested after another request.\<close>

theorem empty_page_index_error_witness:
  "load net_empty [VStr ''http://www.wikitree.com/wiki/X-0''] node_X1 =
     (Some IndexError,
      [VStr ''http://www.wikitree.com/wiki/X-0'', VStr ''http://www.wikitree.com/wiki/X-1''],
      node_X1)"
proof -
  have a: "map_of (dict node_X1) ''url'' = Some (VStr ''http://www.wikitree.com/wiki/X-1'')"
    by (simp add: node_X1_def)
  have b: "net_empty (length [VStr ''http://www.wikitree.com/wiki/X-0''])
             (VStr ''http://www.wikitree.com/wiki/X-1'') = Inr []"
    by (simp add: net_empty_def)
  from empty_page_index_error
    [where n = node_X1 and net = net_empty and w = "[VStr ''http://www.wikitree.com/wiki/X-0'']",
     OF a b]
  show ?thesis by simp
qed

text \<open>
  The counterexample of C4: on a page without items both \<^verbatim>\<open>load\<close> and the first
  attribute read fail with the plain \<^verbatim>\<open>IndexError\<close>.
\<close>

theorem empty_page_failure:
  "load net_empty [] node_X1 =
     (Some IndexError, [VStr ''http://www.wikitree.com/wiki/X-1''], node_X1)
   \<and> read_attr net_empty [] node_X1 ''name'' =
     (Inl IndexError, [VStr ''http://www.wikitree.com/wiki/X-1''], node_X1)"
proof -
  have l: "load net_empty [] node_X1 =
     (Some IndexError, [VStr ''http://www.wikitree.com/wiki/X-1''], node_X1)"
    by (simp add: load_def self_url_def node_X1_def net_empty_def)
  then show ?thesis
    using node_X1_misses_name node_X1_unloaded
    by (simp add: read_attr_def getattr_def node_X1_def)
qed



text \<open>
  C9. \<^verbatim>\<open>__repr__\<close> and \<^verbatim>\<open>__dir__\<close> leave the log of requests and the object as they
  are, in every state. On an unloaded object whose URL is a string, \<^verbatim>\<open>__repr__\<close>
  gives the class name and the URL without the profile prefix, which for the URL of an
  identifier is the identifier, the last segment of its path; \<^verbatim>\<open>__dir__\<close> gives
  the attribute names that the class declares.
\<close>

theorem introspection_frame:
  "snd (repr net w n) = (w, n) \<and> snd (dir net w n) = (w, n)
   \<and> (\<not> loaded n \<and> map_of (dict n) ''url'' = Some (VStr s) \<longrightarrow>
        fst (repr net w n) =
          Inr (Tag (''<'' @ class_name (cls n) @ '' ''
                     @ str_replace ''http://www.wikitree.com/wiki/'' [] s @ ''>'')))
   \<and> (\<not> loaded n \<and> map_of (dict n) ''__keys__'' = None \<longrightarrow>
        fst (dir net w n) = Inr (VList (map VStr Person_keys)))
   \<and> (\<not> str_contains ''http://'' ident \<longrightarrow>
        repr net w \<lparr>cls = Person,
                    dict = [(''url'', VStr (''http://www.wikitree.com/wiki/'' @ ident))]\<rparr> =
          (Inr (Tag (''<Person '' @ ident @ ''>'')), w,
           \<lparr>cls = Person,
            dict = [(''url'', VStr (''http://www.wikitree.com/wiki/'' @ ident))]\<rparr>))"
proof -
  let ?n = "\<lparr>cls = Person,
             dict = [(''url'', VStr (''http://www.wikitree.com/wiki/'' @ ident))]\<rparr>"
  have r: "fst (repr net w n) =
          Inr (Tag (''<'' @ class_name (cls n) @ '' ''
                     @ str_replace ''http://www.wikitree.com/wiki/'' [] s @ ''>''))"
    if "\<not> loaded n" and "map_of (dict n) ''url'' = Some (VStr s)"
    using that by (rule repr_unloaded)
  have d: "fst (dir net w n) = Inr (VList (map VStr Person_keys))"
    if "\<not> loaded n" and "map_of (dict n) ''__keys__'' = None"
    using that by (rule dir_unloaded)
  have i: "repr net w ?n = (Inr (Tag (''<Person '' @ ident @ ''>'')), w, ?n)"
    if c: "\<not> str_contains ''http://'' ident"
  proof -
    have u: "\<not> loaded ?n" by (rule fresh_unloaded)
    have m: "map_of (dict ?n) ''url'' = Some (VStr (''http://www.wikitree.com/wiki/'' @ ident))"
      by simp
    have "fst (repr net w ?n) = Inr (Tag (''<Person '' @ ident @ ''>''))"
      by (simp only: repr_unloaded [OF u m] profile_prefix_removed [OF c]) simp
    moreover have "snd (repr net w ?n) = (w, ?n)" by (rule repr_frame)
    ultimately show ?thesis by (metis prod.collapse)
  qed
  from r d i repr_frame [of net w n] dir_frame [of net w n] show ?thesis by blast
qed

text \<open>The witness of C9: \<^verbatim>\<open>Person('X-1')\<close>, never loaded.\<close>

theorem introspection_frame_witness:
  "repr net_jane [] node_X1 = (Inr (Tag ''<Person X-1>''), [], node_X1)
   \<and> dir net_jane [] node_X1 = (Inr (VList (map VStr Person_keys)), [], node_X1)
   \<and> \<not> loaded node_X1"
proof -
  have c: "\<not> str_contains ''http://'' ''X-1''" by simp
  have k: "map_of (dict node_X1) ''__keys__'' = None" by (simp add: node_X1_def)
  from introspection_frame [where net = net_jane and w = "[]" and n = node_X1 and ident = "''X-1''"]
    c k node_X1_unloaded
  have "repr net_jane [] node_X1 = (Inr (Tag ''<Person X-1>''), [], node_X1)"
    and "fst (dir net_jane [] node_X1) = Inr (VList (map VStr Person_keys))"
    and "snd (dir net_jane [] node_X1) = ([], node_X1)"
    by (simp_all add: node_X1_def)
  then show ?thesis using node_X1_unloaded by (metis prod.collapse)
qed

text \<open>
  C10. After a \<^verbatim>\<open>load\<close> that succeeds, the instance dictionary is the dictionary
  that the normalisation made of the fetched properties, with the two bookkeeping
  entries of lines 43 and 44 stored into it, and nothing of the dictionary before:
  under every other name, \<^verbatim>\<open>url\<close> included, the object holds what the normalised
  document holds. When the property dictionary has no \<^verbatim>\<open>type\<close> key, the object's
  \<^verbatim>\<open>url\<close> is the document's \<^verbatim>\<open>url\<close> value, normalised, and is absent when the
  document has none.
\<close>

theorem load_replaces_dict:
  assumes "load net w n = (None, w', n')"
  shows "\<exists>u item rest data m.
           map_of (dict n) ''url'' = Some u
           \<and> net (length w) u = Inr (item # rest)
           \<and> getitem item ''properties'' = Inr data
           \<and> process_microdata None data = Inr (VDict m)
           \<and> dict n' = AList.update ''__loaded__'' (VBool True)
                         (AList.update ''__data__'' VDataRef m)
           \<and> (\<forall>k. k \<noteq> ''__loaded__'' \<and> k \<noteq> ''__data__'' \<longrightarrow>
                  map_of (dict n') k = map_of m k)
           \<and> map_of (dict n') ''url'' = map_of m ''url''
           \<and> (\<forall>d. data = RDict d \<and> ''type'' \<notin> fst ` set d \<longrightarrow>
                 (case map_of d ''url'' of
                    None \<Rightarrow> map_of (dict n') ''url'' = None
                  | Some x \<Rightarrow>
                      \<exists>y. process_microdata (Some ''url'') x = Inr y
                          \<and> map_of (dict n') ''url'' = Some y))"
proof -
  from load_success [OF assms] obtain u item rest data m where
    u: "map_of (dict n) ''url'' = Some u"
    and f: "net (length w) u = Inr (item # rest)"
    and g: "getitem item ''properties'' = Inr data"
    and p: "process_microdata None data = Inr (VDict m)"
    and n': "n' = n\<lparr>dict := AList.update ''__loaded__'' (VBool True)
                               (AList.update ''__data__'' VDataRef m)\<rparr>"
    by blast
  from n' have dn: "dict n' = AList.update ''__loaded__'' (VBool True)
                         (AList.update ''__data__'' VDataRef m)" by simp
  have other: "map_of (dict n') k = map_of m k" if "k \<noteq> ''__loaded__'' \<and> k \<noteq> ''__data__''" for k
    using that by (simp add: dn update_conv')
  have url: "map_of (dict n') ''url'' = map_of m ''url''"
    by (rule other) simp
  have doc: "(case map_of d ''url'' of
                    None \<Rightarrow> map_of (dict n') ''url'' = None
                  | Some x \<Rightarrow>
                      \<exists>y. process_microdata (Some ''url'') x = Inr y
                          \<and> map_of (dict n') ''url'' = Some y)"
    if "data = RDict d \<and> ''type'' \<notin> fst ` set d" for d
  proof -
    from that have dd: "data = RDict d" and t: "''type'' \<notin> fst ` set d" by simp_all
    from p dd have "process_microdata None (RDict d) = Inr (VDict m)" by (simp only:)
    then have "(case process_microdata_items d of
                  Inl e \<Rightarrow> Inl e | Inr m \<Rightarrow> Inr (VDict m)) = Inr (VDict m)"
      by (simp only: untagged_bag [OF t])
    then have "process_microdata_items d = Inr m"
      by (cases "process_microdata_items d") simp_all
    from items_lookup [OF this, of "''url''"] url show ?thesis
      by (simp split: option.splits)
  qed
  from u f g p dn other url doc show ?thesis by blast
qed

text \<open>
  The witness of C10: \<^verbatim>\<open>Person('X-1')\<close> loads a document whose \<^verbatim>\<open>url\<close> is that of
  another profile and holds that one afterwards; it loads the example document, which
  has no \<^verbatim>\<open>url\<close>, and holds none.
\<close>

theorem load_replaces_dict_witness:
  "map_of (dict node_X1) ''url'' = Some (VStr ''http://www.wikitree.com/wiki/X-1'')
   \<and> load net_jane_url [] node_X1 =
       (None, [VStr ''http://www.wikitree.com/wiki/X-1''],
        \<lparr>cls = Person,
         dict = [(''name'', VStr ''Jane Doe''),
                 (''url'', VStr ''http://www.wikitree.com/wiki/Doe-7''),
                 (''__data__'', VDataRef),
                 (''__loaded__'', VBool True)]\<rparr>)
   \<and> load net_jane [] node_X1 =
       (None, [VStr ''http://www.wikitree.com/wiki/X-1''], jane_loaded)
   \<and> map_of (dict jane_loaded) ''url'' = None"
proof -
  have a: "map_of (dict node_X1) ''url'' = Some (VStr ''http://www.wikitree.com/wiki/X-1'')"
    by (simp add: node_X1_def)
  have b: "load net_jane [] node_X1 =
       (None, [VStr ''http://www.wikitree.com/wiki/X-1''], jane_loaded)"
    using load_jane [of "[]"] by simp
  from load_replaces_dict [OF b]
  have c: "map_of (dict jane_loaded) ''url'' = None"
    by (simp add: jane_loaded_def)
  from load_replaces_dict [OF load_jane_url] a b c load_jane_url
  show ?thesis by blast
qed

end
